theory Spec2Isabelle
  imports Main "HOL-Library.Sublist" "HOL-Library.Multiset"
begin

section \<open>Values of the Go runtime used by generator/post.go\<close>

text \<open>
  Go strings and byte slices are byte sequences: \<^typ>\<open>string\<close>. The error values that
  reach the code from the standard library are kept apart only as far as the code tells
  them apart: \<open>io.EOF\<close> (compared with \<open>!=\<close> in the header loop), \<open>os.ErrNotExist\<close>
  (tested with \<open>os.IsNotExist\<close>), \<open>os.ErrInvalid\<close> (what every method of a nil
  \<open>*os.File\<close> returns), and any other error with its message.
\<close>

datatype goerr = IoEOF | OsErrNotExist | OsErrInvalid | OtherErr string

text \<open>
  A \<open>time.Time\<close> is modelled by its instant, counted in seconds from the zero Time
  (January 1, year 1, 00:00 UTC); \<open>Time.After\<close> compares instants only.
\<close>

type_synonym gotime = int

definition zeroTime :: gotime where
  "zeroTime = 0"

definition After :: "gotime \<Rightarrow> gotime \<Rightarrow> bool" where
  "After t u = (u < t)"

text \<open>
  Modelled from the spec: the declaration of \<open>Meta\<close> is not in post.go. The spec gives
  its fields: title, short, date (raw, as written) and parsedDate (derived).
\<close>

record Meta =
  Title :: string
  Short :: string
  Date :: string
  ParsedDate :: gotime

record Post =
  Name :: string
  HTML :: string
  Meta :: Meta
  ImagesDir :: string
  Images :: "string list"

text \<open>
  The errors the functions build with \<open>fmt.Errorf\<close>, one constructor for each format
  string, carrying what \<open>%s\<close> and \<open>%v\<close> print.
\<close>

datatype error =
    ErrReadString goerr              \<comment> \<open>\<open>error ReadString: %v\<close>\<close>
  | ErrNoFence                       \<comment> \<open>\<open>error in can not find "---"\<close>\<close>
  | ErrReadAll                       \<comment> \<open>\<open>error ReadAll: %v\<close>\<close>
  | ErrReadingYml goerr              \<comment> \<open>\<open>error reading yml: %v\<close>\<close>
  | ErrParsingMeta string error      \<comment> \<open>\<open>error parsing meta in %s:%v\<close>\<close>
  | ErrParsingHtml goerr             \<comment> \<open>\<open>error while parsing html: %v\<close>\<close>
  | ErrGeneratingHtml goerr          \<comment> \<open>\<open>error while generating html: %v\<close>\<close>
  | ErrHighlighting error            \<comment> \<open>\<open>error during syntax highlighting : %v\<close>\<close>
  | ErrReadingFolder string goerr    \<comment> \<open>\<open>error while reading folder %s: %v\<close>\<close>

subsection \<open>The buffered reader\<close>

text \<open>
  A \<open>*bufio.Reader\<close> over a file is the bytes not yet read together with the error the
  underlying reader returns once they are used up: \<open>io.EOF\<close> at the end of a file,
  another error when reading fails.
\<close>

record reader =
  pending :: string
  final :: goerr

definition newline :: char where
  "newline = CHR 0x0A"

text \<open>
  \<open>br.ReadString('\n')\<close>: the bytes up to and including the first newline and no error;
  without a newline, all the bytes that are left and the reader's error.
\<close>

definition ReadString :: "reader \<Rightarrow> string \<times> goerr option \<times> reader" where
  "ReadString br =
     (if newline \<in> set (pending br)
      then (takeWhile (\<lambda>c. c \<noteq> newline) (pending br) @ [newline], None,
            br\<lparr>pending := tl (dropWhile (\<lambda>c. c \<noteq> newline) (pending br))\<rparr>)
      else (pending br, Some (final br), br\<lparr>pending := []\<rparr>))"

text \<open>\<open>ioutil.ReadAll(br)\<close>: everything that is left; \<open>io.EOF\<close> is not reported as an error.\<close>

definition ReadAll :: "reader \<Rightarrow> string \<times> goerr option \<times> reader" where
  "ReadAll br =
     (pending br, (if final br = IoEOF then None else Some (final br)), br\<lparr>pending := []\<rparr>)"

text \<open>
  \<open>bufio.NewReader(file)\<close>. \<open>None\<close> is the nil \<open>*os.File\<close> that \<open>os.Open\<close> returns
  with an error: each read from it returns \<open>os.ErrInvalid\<close> and no bytes.
\<close>

definition NewReader :: "reader option \<Rightarrow> reader" where
  "NewReader file =
     (case file of None \<Rightarrow> \<lparr>pending = [], final = OsErrInvalid\<rparr> | Some f \<Rightarrow> f)"

subsection \<open>Libraries and file system\<close>

text \<open>
  The packages post.go imports are parameters. A Go function returning \<open>(T, error)\<close> whose
  error the code checks is a sum; one whose error the code drops returns the pair, since
  the code goes on with the first component.
\<close>

record ('d, 's) lib =
  yamlUnmarshal :: "string \<Rightarrow> goerr + Meta"
  timeParse :: "string \<Rightarrow> string \<Rightarrow> gotime \<times> goerr option"
  MarkdownCommon :: "string \<Rightarrow> string"
  NewDocumentFromReader :: "string \<Rightarrow> goerr + 'd"
  Find :: "'d \<Rightarrow> string \<Rightarrow> 's list"
  Text :: "'d \<Rightarrow> 's \<Rightarrow> string"
  SetHtml :: "'d \<Rightarrow> 's \<Rightarrow> string \<Rightarrow> 'd"
  Html :: "'d \<Rightarrow> goerr + string"
  AsHTML :: "string \<Rightarrow> string \<times> goerr option"

record FileInfo =
  FName :: string
  IsDir :: bool

record fsys =
  Join :: "string \<Rightarrow> string \<Rightarrow> string"
  Base :: "string \<Rightarrow> string"
  osOpen :: "string \<Rightarrow> reader option \<times> goerr option"
  ReadDir :: "string \<Rightarrow> goerr + FileInfo list"

section \<open>getMeta\<close>

text \<open>
  The \<open>for\<close> loop of \<open>getMeta\<close>, with the reader and the buffer as its state. It has no
  exit but the \<open>return\<close> on a read error other than \<open>io.EOF\<close> and the \<open>break\<close> on a line
  that begins with the fence, so it is a partial function: \<open>None\<close> is the loop that
  never ends.
\<close>

partial_function (option) readHeader :: "reader \<Rightarrow> string \<Rightarrow> (error + string \<times> reader) option" where
  "readHeader br buf =
     (case ReadString br of (line, err, br') \<Rightarrow>
        (case err of
           Some e \<Rightarrow>
             if e \<noteq> IoEOF then Some (Inl (ErrReadString e))
             else if prefix ''---'' line then Some (Inr (buf, br'))
             else readHeader br' (buf @ line)
         | None \<Rightarrow>
             if prefix ''---'' line then Some (Inr (buf, br'))
             else readHeader br' (buf @ line)))"

text \<open>
  \<open>getMeta\<close> returns the reader too, advanced past what it has read. \<open>ioutil.ReadAll\<close> of
  the \<open>bytes.Buffer\<close> returns its content and no error, so only the length is tested.
\<close>

definition getMeta :: "('d, 's) lib \<Rightarrow> reader \<Rightarrow> string \<Rightarrow> (error + Meta \<times> reader) option" where
  "getMeta L br dateFormat =
     (case ReadString br of (line, err, br1) \<Rightarrow>
        (case err of
           Some e \<Rightarrow> Some (Inl (ErrReadString e))
         | None \<Rightarrow>
             if \<not> prefix ''---'' line then Some (Inl ErrNoFence)
             else
               (case readHeader br1 [] of
                  None \<Rightarrow> None
                | Some (Inl e) \<Rightarrow> Some (Inl e)
                | Some (Inr (h, br2)) \<Rightarrow>
                    if length h < 3 then Some (Inl ErrReadAll)
                    else
                      (case yamlUnmarshal L h of
                         Inl e \<Rightarrow> Some (Inl (ErrReadingYml e))
                       | Inr meta \<Rightarrow>
                           Some (Inr (meta\<lparr>ParsedDate := fst (timeParse L dateFormat (Date meta))\<rparr>,
                                      br2))))))"

section \<open>replaceCodeParts and getHTML\<close>

text \<open>
  \<open>strings.Replace(s, old, new, 1)\<close>: the first occurrence of \<open>old\<close> in \<open>s\<close>, from the left,
  is replaced by \<open>new\<close>; without an occurrence \<open>s\<close> is returned as it is.
\<close>

fun Replace1 :: "string \<Rightarrow> string \<Rightarrow> string \<Rightarrow> string" where
  "Replace1 [] old new = (if old = [] then new else [])"
| "Replace1 (c # cs) old new =
     (if prefix old (c # cs) then new @ drop (length old) (c # cs)
      else c # Replace1 cs old new)"

definition dquote :: char where
  "dquote = CHR 0x22"

definition codeSelector :: string where
  "codeSelector = ''code[class*='' @ [dquote] @ ''language-'' @ [dquote] @ '']''"

definition htmlOpen :: string where
  "htmlOpen = ''<html><head></head><body>''"

definition htmlClose :: string where
  "htmlClose = ''</body></html>''"

text \<open>
  The callback given to \<open>Each\<close>: the text of the selected element goes through the
  highlighter, whose error is dropped, and what the highlighter returned becomes the
  element's content. The document is mutated in place, so it is the state of the loop.
\<close>

definition highlightCode :: "('d, 's) lib \<Rightarrow> 's \<Rightarrow> 'd \<Rightarrow> 'd" where
  "highlightCode L s doc =
     (let oldCode = Text L doc s;
          formatted = fst (AsHTML L oldCode)
      in SetHtml L doc s formatted)"

definition replaceCodeParts :: "('d, 's) lib \<Rightarrow> string \<Rightarrow> error + string" where
  "replaceCodeParts L htmlFile =
     (case NewDocumentFromReader L htmlFile of
        Inl e \<Rightarrow> Inl (ErrParsingHtml e)
      | Inr doc \<Rightarrow>
          (case Html L (fold (highlightCode L) (Find L doc codeSelector) doc) of
             Inl e \<Rightarrow> Inl (ErrGeneratingHtml e)
           | Inr new \<Rightarrow> Inr (Replace1 (Replace1 new htmlOpen []) htmlClose [])))"

text \<open>\<open>getHTML\<close> drops the error of \<open>ioutil.ReadAll\<close> and renders what was read.\<close>

definition getHTML :: "('d, 's) lib \<Rightarrow> reader \<Rightarrow> error + string" where
  "getHTML L br =
     (case ReadAll br of (input, _, _) \<Rightarrow>
        (case replaceCodeParts L (MarkdownCommon L input) of
           Inl e \<Rightarrow> Inl (ErrHighlighting e)
         | Inr replaced \<Rightarrow> Inr replaced))"

section \<open>getImages\<close>

definition IsNotExist :: "goerr \<Rightarrow> bool" where
  "IsNotExist e = (e = OsErrNotExist)"

text \<open>The \<open>range\<close> loop appends the name of each entry, in the order of the listing.\<close>

definition getImages :: "fsys \<Rightarrow> string \<Rightarrow> error + string \<times> string list" where
  "getImages E path =
     (let dirPath = Join E path ''images'' in
      case ReadDir E dirPath of
        Inl e \<Rightarrow>
          if IsNotExist e then Inr ([], [])
          else Inl (ErrReadingFolder dirPath e)
      | Inr files \<Rightarrow>
          Inr (dirPath, fold (\<lambda>file images. images @ [FName file]) files []))"

section \<open>newPost\<close>

text \<open>
  The error of \<open>os.Open\<close> is assigned and never read: the next statement that assigns
  \<open>err\<close> is the call of \<open>getMeta\<close>. The reader is built from the file whatever it is.
\<close>

definition newPost :: "('d, 's) lib \<Rightarrow> fsys \<Rightarrow> string \<Rightarrow> string \<Rightarrow> (error + Post) option" where
  "newPost L E path dateFormat =
     (let filePath = Join E path ''post.md'';
          file = fst (osOpen E filePath);
          br = NewReader file
      in case getMeta L br dateFormat of
           None \<Rightarrow> None
         | Some (Inl e) \<Rightarrow> Some (Inl (ErrParsingMeta filePath e))
         | Some (Inr (meta, br')) \<Rightarrow>
             (case getHTML L br' of
                Inl e \<Rightarrow> Some (Inl e)
              | Inr html \<Rightarrow>
                  (case getImages E path of
                     Inl e \<Rightarrow> Some (Inl e)
                   | Inr (imagesDir, images) \<Rightarrow>
                       Some (Inr \<lparr>Name = Base E path, HTML = html, Meta = meta,
                                  ImagesDir = imagesDir, Images = images\<rparr>))))"

section \<open>ByDateDesc\<close>

text \<open>
  \<open>ByDateDesc\<close> is a slice of posts. An index out of range panics: \<open>None\<close>. The posts
  and their \<open>Meta\<close> are the non-nil pointers that \<open>newPost\<close> builds.
\<close>

type_synonym ByDateDesc = "Post list"

definition Len :: "ByDateDesc \<Rightarrow> nat" where
  "Len p = length p"

definition Swap :: "ByDateDesc \<Rightarrow> nat \<Rightarrow> nat \<Rightarrow> ByDateDesc option" where
  "Swap p i j =
     (if i < length p \<and> j < length p then Some (p[i := p ! j, j := p ! i]) else None)"

definition Less :: "ByDateDesc \<Rightarrow> nat \<Rightarrow> nat \<Rightarrow> bool option" where
  "Less p i j =
     (if i < length p \<and> j < length p
      then Some (After (ParsedDate (Meta (p ! i))) (ParsedDate (Meta (p ! j))))
      else None)"

text \<open>
  The consumer of the three methods is \<open>sort.Sort\<close>. On a slice of at most six elements
  it is, in every release of the package, \<open>insertionSort(data, 0, data.Len())\<close>: \<open>for i :=
  a+1; i < b; i++ { for j := i; j > a && data.Less(j, j-1); j-- { data.Swap(j, j-1) } }\<close>.
  \<open>insertInner\<close> is the inner loop for \<open>a = 0\<close>, \<open>insertionLoop\<close> the outer one. The other
  passes that \<open>sort.Sort\<close> runs on longer slices are not modelled.
\<close>

fun insertInner :: "ByDateDesc \<Rightarrow> nat \<Rightarrow> ByDateDesc option" where
  "insertInner p 0 = Some p"
| "insertInner p (Suc j) =
     (case Less p (Suc j) j of
        None \<Rightarrow> None
      | Some False \<Rightarrow> Some p
      | Some True \<Rightarrow>
          (case Swap p (Suc j) j of
             None \<Rightarrow> None
           | Some p' \<Rightarrow> insertInner p' j))"

function insertionLoop :: "ByDateDesc \<Rightarrow> nat \<Rightarrow> nat \<Rightarrow> ByDateDesc option" where
  "insertionLoop p i b =
     (if i < b
      then (case insertInner p i of
              None \<Rightarrow> None
            | Some p' \<Rightarrow> insertionLoop p' (Suc i) b)
      else Some p)"
  by pat_completeness auto
termination
  by (relation "measure (\<lambda>(p, i, b). b - i)") auto

declare insertionLoop.simps [simp del]

definition insertionSort :: "ByDateDesc \<Rightarrow> ByDateDesc option" where
  "insertionSort p = insertionLoop p 1 (Len p)"

text \<open>Descending by date: no post has a later parsed date than a post before it.\<close>

definition byDateDesc :: "Post list \<Rightarrow> bool" where
  "byDateDesc q = sorted_wrt (\<lambda>x y. ParsedDate (Meta y) \<le> ParsedDate (Meta x)) q"

section \<open>Header blocks\<close>

text \<open>
  A line as \<open>ReadString\<close> returns it without an error: it ends with the only newline it
  has. A fence is a line that begins with \<open>---\<close>; a header line is one that does not.
\<close>

definition isLine :: "string \<Rightarrow> bool" where
  "isLine l = (l \<noteq> [] \<and> last l = newline \<and> newline \<notin> set (butlast l))"

definition fenceLine :: "string \<Rightarrow> bool" where
  "fenceLine l = (isLine l \<and> prefix ''---'' l)"

definition headerLine :: "string \<Rightarrow> bool" where
  "headerLine l = (isLine l \<and> \<not> prefix ''---'' l)"

section \<open>An instance of the libraries and of the file system\<close>

text \<open>
  The general theorems hold for every library and file system. To run the functions on
  concrete posts, here is one instance. Its YAML decoder accepts the header of the spec's
  example post and rejects every other document; its date parser knows the layout
  \<open>2006-01-02\<close> for the date of that header and fails otherwise, returning the zero Time
  with the error as \<open>time.Parse\<close> does. Its document is a sequence of chunks, raw markup
  or a \<open>code\<close> element of class \<open>language-go\<close> with its content; its highlighter wraps
  the text in a \<open>span\<close> and, like \<open>syntaxhighlight.AsHTML\<close> writing to its buffer, returns
  no error.
\<close>

datatype chunk = Raw string | Code string

definition codeOpen :: string where
  "codeOpen = ''<code class='' @ [dquote] @ ''language-go'' @ [dquote] @ ''>''"

definition exMeta :: Meta where
  "exMeta = \<lparr>Title = ''Hello'', Short = ''A greeting'', Date = ''2023-05-01'',
             ParsedDate = zeroTime\<rparr>"

definition exHeader :: "string list" where
  "exHeader = [''title: Hello\<newline>'', ''short: A greeting\<newline>'', ''date: 2023-05-01\<newline>'']"

definition exPost :: string where
  "exPost = ''---\<newline>'' @ concat exHeader @ ''---\<newline>'' @ ''# Hi\<newline>''"

fun serialize :: "chunk \<Rightarrow> string" where
  "serialize (Raw t) = t"
| "serialize (Code t) = codeOpen @ t @ ''</code>''"

fun isCode :: "chunk \<Rightarrow> bool" where
  "isCode (Raw t) = False"
| "isCode (Code t) = True"

fun innerText :: "chunk \<Rightarrow> string" where
  "innerText (Raw t) = t"
| "innerText (Code t) = t"

definition exLib :: "(chunk list, nat) lib" where
  "exLib = \<lparr>
     yamlUnmarshal = (\<lambda>h. if h = concat exHeader then Inr exMeta else Inl (OtherErr ''yaml'')),
     timeParse = (\<lambda>layout v.
        if layout = ''2006-01-02'' \<and> v = ''2023-05-01'' then (63818496000, None)
        else (zeroTime, Some (OtherErr ''parsing time''))),
     MarkdownCommon = (\<lambda>input. input),
     NewDocumentFromReader = (\<lambda>h.
        Inr (if h = codeOpen @ ''x y'' @ ''</code>'' then [Code ''x y''] else [Raw h])),
     Find = (\<lambda>doc sel.
        if sel = codeSelector then filter (\<lambda>i. isCode (doc ! i)) [0..<length doc] else []),
     Text = (\<lambda>doc i. innerText (doc ! i)),
     SetHtml = (\<lambda>doc i h. doc[i := Code h]),
     Html = (\<lambda>doc. Inr (htmlOpen @ concat (map serialize doc) @ htmlClose)),
     AsHTML = (\<lambda>src. (''<span>'' @ src @ ''</span>'', None))\<rparr>"

text \<open>
  Three post directories: \<open>blog/hello\<close> with a post and images, \<open>blog/broken\<close> whose
  post.md can be read up to its last byte and then fails, and any other directory, empty.
\<close>

definition exFS :: fsys where
  "exFS = \<lparr>
     Join = (\<lambda>a b. a @ ''/'' @ b),
     Base = (\<lambda>p. rev (takeWhile (\<lambda>c. c \<noteq> CHR ''/'') (rev p))),
     osOpen = (\<lambda>p.
        if p = ''blog/hello/post.md'' then (Some \<lparr>pending = exPost, final = IoEOF\<rparr>, None)
        else if p = ''blog/broken/post.md''
        then (Some \<lparr>pending = exPost, final = OtherErr ''input/output error''\<rparr>, None)
        else (None, Some OsErrNotExist)),
     ReadDir = (\<lambda>p.
        if p = ''blog/hello/images''
        then Inr [\<lparr>FName = ''b.png'', IsDir = False\<rparr>, \<lparr>FName = ''a.png'', IsDir = False\<rparr>,
                  \<lparr>FName = ''raw'', IsDir = True\<rparr>]
        else Inl OsErrNotExist)\<rparr>"

definition datedPost :: "string \<Rightarrow> gotime \<Rightarrow> Post" where
  "datedPost n d =
     \<lparr>Name = n, HTML = [],
      Meta = \<lparr>Title = n, Short = [], Date = [], ParsedDate = d\<rparr>,
      ImagesDir = [], Images = []\<rparr>"

section \<open>Reading lines\<close>

lemma ReadString_line:
  assumes "isLine l"
  shows "ReadString \<lparr>pending = l @ rest, final = f\<rparr> = (l, None, \<lparr>pending = rest, final = f\<rparr>)"
proof -
  from assms obtain k where l: "l = k @ [newline]" and k: "newline \<notin> set k"
    unfolding isLine_def by (metis append_butlast_last_id)
  have tw: "takeWhile (\<lambda>c. c \<noteq> newline) (k @ newline # rest) = k"
    using k by (induction k) auto
  have dw: "dropWhile (\<lambda>c. c \<noteq> newline) (k @ newline # rest) = newline # rest"
    using k by (induction k) auto
  show ?thesis unfolding ReadString_def l using tw dw by simp
qed

lemma ReadString_last:
  "newline \<notin> set s \<Longrightarrow>
   ReadString \<lparr>pending = s, final = f\<rparr> = (s, Some f, \<lparr>pending = [], final = f\<rparr>)"
  by (simp add: ReadString_def)

lemma ReadString_fence:
  "ReadString \<lparr>pending = ''---\<newline>'' @ rest, final = f\<rparr> =
     (''---\<newline>'', None, \<lparr>pending = rest, final = f\<rparr>)"
  by (rule ReadString_line) (simp add: isLine_def newline_def)

section \<open>The header loop\<close>

lemma readHeader_headerLine:
  assumes "headerLine l"
  shows "readHeader \<lparr>pending = l @ rest, final = f\<rparr> buf =
         readHeader \<lparr>pending = rest, final = f\<rparr> (buf @ l)"
  using assms unfolding headerLine_def
  by (subst readHeader.simps) (simp add: ReadString_line)

lemma readHeader_headerLines:
  "list_all headerLine ls \<Longrightarrow>
   readHeader \<lparr>pending = concat ls @ rest, final = f\<rparr> buf =
   readHeader \<lparr>pending = rest, final = f\<rparr> (buf @ concat ls)"
proof (induction ls arbitrary: buf)
  case Nil
  then show ?case by simp
next
  case (Cons l ls)
  then show ?case by (simp add: readHeader_headerLine)
qed

lemma readHeader_fenceLine:
  assumes "fenceLine c"
  shows "readHeader \<lparr>pending = c @ rest, final = f\<rparr> buf =
         Some (Inr (buf, \<lparr>pending = rest, final = f\<rparr>))"
  using assms unfolding fenceLine_def
  by (subst readHeader.simps) (simp add: ReadString_line)

lemma readHeader_block:
  assumes "list_all headerLine ls" and "fenceLine c"
  shows "readHeader \<lparr>pending = concat ls @ c @ rest, final = f\<rparr> [] =
         Some (Inr (concat ls, \<lparr>pending = rest, final = f\<rparr>))"
  using assms by (simp add: readHeader_headerLines readHeader_fenceLine)

text \<open>A fence that is the unfinished last line of the stream ends the loop as well.\<close>

lemma readHeader_fence_at_eof:
  assumes "newline \<notin> set c" and "prefix ''---'' c"
  shows "readHeader \<lparr>pending = c, final = IoEOF\<rparr> buf =
         Some (Inr (buf, \<lparr>pending = [], final = IoEOF\<rparr>))"
  using assms by (subst readHeader.simps) (simp add: ReadString_last)

text \<open>
  At the end of the stream \<open>ReadString\<close> returns no bytes and \<open>io.EOF\<close>, the empty line
  does not begin with the fence, and the loop is where it was: no result is reached
  from there.
\<close>

lemma readHeader_result_not_at_eof:
  assumes "readHeader br b = Some y"
  shows "br \<noteq> \<lparr>pending = [], final = IoEOF\<rparr>"
proof (rule readHeader.raw_induct[where P = "\<lambda>br b y. br \<noteq> \<lparr>pending = [], final = IoEOF\<rparr>", OF _ assms])
  fix rh :: "reader \<Rightarrow> string \<Rightarrow> (error + string \<times> reader) option" and r buf res
  assume IH: "\<And>r' b' y'. rh r' b' = Some y' \<Longrightarrow> r' \<noteq> \<lparr>pending = [], final = IoEOF\<rparr>"
  assume step: "(case ReadString r of
      (line, None, br') \<Rightarrow>
        if prefix ''---'' line then Some (Inr (buf, br'))
        else rh br' (buf @ line)
      | (line, Some e, br') \<Rightarrow>
          if e \<noteq> IoEOF then Some (Inl (ErrReadString e))
          else if prefix ''---'' line then Some (Inr (buf, br'))
               else rh br' (buf @ line)) = Some res"
  show "r \<noteq> \<lparr>pending = [], final = IoEOF\<rparr>"
  proof
    assume "r = \<lparr>pending = [], final = IoEOF\<rparr>"
    with step have "rh \<lparr>pending = [], final = IoEOF\<rparr> buf = Some res"
      by (simp add: ReadString_def)
    from IH[OF this] show False by simp
  qed
qed

lemma readHeader_at_eof: "readHeader \<lparr>pending = [], final = IoEOF\<rparr> buf = None"
  using readHeader_result_not_at_eof[of "\<lparr>pending = [], final = IoEOF\<rparr>" buf]
  by (cases "readHeader \<lparr>pending = [], final = IoEOF\<rparr> buf") auto

lemma readHeader_tail_at_eof:
  assumes "newline \<notin> set t" and "\<not> prefix ''---'' t"
  shows "readHeader \<lparr>pending = t, final = IoEOF\<rparr> buf = None"
  using assms by (subst readHeader.simps) (simp add: ReadString_last readHeader_at_eof)

text \<open>The loop on the header of the example post.\<close>

lemma readHeader_exHeader:
  "readHeader \<lparr>pending = concat exHeader @ ''---\<newline>'' @ rest, final = f\<rparr> [] =
     Some (Inr (concat exHeader, \<lparr>pending = rest, final = f\<rparr>))"
  by (rule readHeader_block)
     (simp_all add: fenceLine_def headerLine_def isLine_def newline_def exHeader_def)

lemma getMeta_exPost:
  "getMeta exLib \<lparr>pending = exPost, final = f\<rparr> ''2006-01-02'' =
     Some (Inr (exMeta\<lparr>ParsedDate := 63818496000\<rparr>, \<lparr>pending = ''# Hi\<newline>'', final = f\<rparr>))"
proof -
  have loop: "readHeader \<lparr>pending = concat exHeader @ ''---\<newline>'' @ ''# Hi\<newline>'', final = f\<rparr> [] =
        Some (Inr (concat exHeader, \<lparr>pending = ''# Hi\<newline>'', final = f\<rparr>))"
    by (rule readHeader_exHeader)
  have len: "\<not> length (concat exHeader) < 3"
    by (simp add: exHeader_def)
  have y: "yamlUnmarshal exLib (concat exHeader) = Inr exMeta"
    by (simp add: exLib_def)
  have t: "fst (timeParse exLib ''2006-01-02'' (Date exMeta)) = 63818496000"
    by (simp add: exLib_def exMeta_def)
  show ?thesis
    unfolding getMeta_def exPost_def ReadString_fence using loop len y t by simp
qed

section \<open>Claims about getMeta\<close>

text \<open>
  C1. A well-formed header block is an opening fence line, header lines that make up at
  least three bytes and decode as YAML, and a closing fence line. On a stream that
  starts with such a block, \<open>getMeta\<close> returns the decoded Meta, with the title, short
  and date the decoder read from exactly the bytes between the fences (only
  \<open>ParsedDate\<close> is set afterwards), and the reader it leaves holds the body and nothing
  else: the next read starts at the first byte after the closing fence line.
\<close>

theorem getMeta_well_formed_header:
  assumes "fenceLine opening" and "list_all headerLine ls" and "fenceLine closing"
    and "3 \<le> length (concat ls)" and "yamlUnmarshal L (concat ls) = Inr m"
  shows "getMeta L \<lparr>pending = opening @ concat ls @ closing @ body, final = f\<rparr> dateFormat =
           Some (Inr (m\<lparr>ParsedDate := fst (timeParse L dateFormat (Date m))\<rparr>,
                      \<lparr>pending = body, final = f\<rparr>))"
proof -
  have first: "ReadString \<lparr>pending = opening @ concat ls @ closing @ body, final = f\<rparr> =
                 (opening, None, \<lparr>pending = concat ls @ closing @ body, final = f\<rparr>)"
    using assms(1) by (simp add: fenceLine_def ReadString_line)
  have loop: "readHeader \<lparr>pending = concat ls @ closing @ body, final = f\<rparr> [] =
                Some (Inr (concat ls, \<lparr>pending = body, final = f\<rparr>))"
    using assms(2,3) by (rule readHeader_block)
  show ?thesis
    unfolding getMeta_def first using assms(1,4,5) loop by (simp add: fenceLine_def)
qed

theorem getMeta_well_formed_header_witness:
  "getMeta exLib \<lparr>pending = ''---\<newline>'' @ concat exHeader @ ''---\<newline>'' @ ''# Hi\<newline>'', final = IoEOF\<rparr>
       ''2006-01-02'' =
     Some (Inr (\<lparr>Title = ''Hello'', Short = ''A greeting'', Date = ''2023-05-01'',
                  ParsedDate = 63818496000\<rparr>,
                \<lparr>pending = ''# Hi\<newline>'', final = IoEOF\<rparr>))"
  using getMeta_well_formed_header[of "''---\<newline>''" exHeader "''---\<newline>''" exLib exMeta
      "''# Hi\<newline>''" IoEOF "''2006-01-02''"]
  by (simp add: fenceLine_def headerLine_def isLine_def newline_def exHeader_def exLib_def
      exMeta_def)

text \<open>
  C2. The stream starts with an opening fence line and ends before a closing fence:
  after the header lines there is at most an unfinished last line, which does not begin
  with \<open>---\<close>. The claim is that \<open>getMeta\<close> terminates there and takes what it has read
  for the header. The loop does skip the \<open>return\<close> on \<open>io.EOF\<close>, but it has no \<open>break\<close>
  for it: on every such stream \<open>getMeta\<close> never returns.
\<close>

theorem getMeta_no_closing_fence:
  assumes "fenceLine opening" and "list_all headerLine ls"
    and "newline \<notin> set t" and "\<not> prefix ''---'' t"
  shows "getMeta L \<lparr>pending = opening @ concat ls @ t, final = IoEOF\<rparr> dateFormat = None"
proof -
  have first: "ReadString \<lparr>pending = opening @ concat ls @ t, final = IoEOF\<rparr> =
                 (opening, None, \<lparr>pending = concat ls @ t, final = IoEOF\<rparr>)"
    using assms(1) by (simp add: fenceLine_def ReadString_line)
  have loop: "readHeader \<lparr>pending = concat ls @ t, final = IoEOF\<rparr> [] = None"
    using readHeader_headerLines[OF assms(2), of t IoEOF "[]"] assms(3,4)
    by (simp add: readHeader_tail_at_eof)
  show ?thesis
    unfolding getMeta_def first using assms(1) loop by (simp add: fenceLine_def)
qed

theorem getMeta_no_closing_fence_witness:
  "getMeta exLib \<lparr>pending = ''---\<newline>'' @ concat exHeader, final = IoEOF\<rparr> ''2006-01-02'' = None"
  using getMeta_no_closing_fence[of "''---\<newline>''" exHeader "[]" exLib "''2006-01-02''"]
  by (simp add: fenceLine_def headerLine_def isLine_def newline_def exHeader_def)

text \<open>
  C7. When the first line that \<open>ReadString\<close> returns does not begin with \<open>---\<close>, \<open>getMeta\<close>
  returns an error and no Meta. The error is the missing fence when that line ends with
  a newline. When the stream ends or fails before the first newline, the error of the
  read is tested first and returned: the fence is not looked at.
\<close>

theorem getMeta_missing_opening_fence:
  assumes "\<not> prefix ''---'' (fst (ReadString br))"
  shows "getMeta L br dateFormat =
           Some (Inl (case fst (snd (ReadString br)) of
                        None \<Rightarrow> ErrNoFence
                      | Some e \<Rightarrow> ErrReadString e))"
  using assms unfolding getMeta_def by (auto split: prod.splits option.splits)

theorem getMeta_missing_opening_fence_witness:
  "getMeta exLib \<lparr>pending = ''title: Hello\<newline>---\<newline>'', final = IoEOF\<rparr> ''2006-01-02'' =
     Some (Inl ErrNoFence)"
  using getMeta_missing_opening_fence[of
      "\<lparr>pending = ''title: Hello\<newline>---\<newline>'', final = IoEOF\<rparr>" exLib "''2006-01-02''"]
  by (simp add: ReadString_def newline_def)

text \<open>
  The claim as it is written fails on a stream without a newline: its first line,
  \<open>title: Hello\<close>, does not begin with the fence, and the error is that of the read.
\<close>

theorem getMeta_missing_opening_fence_counterexample:
  "\<not> prefix ''---'' (fst (ReadString \<lparr>pending = ''title: Hello'', final = IoEOF\<rparr>)) \<and>
   getMeta exLib \<lparr>pending = ''title: Hello'', final = IoEOF\<rparr> ''2006-01-02'' =
     Some (Inl (ErrReadString IoEOF)) \<and>
   getMeta exLib \<lparr>pending = ''title: Hello'', final = IoEOF\<rparr> ''2006-01-02'' \<noteq>
     Some (Inl ErrNoFence)"
  by (simp add: getMeta_def ReadString_def newline_def)

text \<open>
  C8. The stream starts with a fence line, and the header lines after it make up fewer
  than three bytes or are rejected by the YAML decoder. The claim is that \<open>getMeta\<close> then
  fails with InvalidMetadata for every such stream. It does when a closing fence line
  follows the header: \<open>error ReadAll\<close> for the short header, else \<open>error reading yml\<close>
  with the decoder's error, the two errors the spec calls InvalidMetadata, and no Meta.
  When the stream ends after the header lines instead, the loop has no exit at
  \<open>io.EOF\<close> and \<open>getMeta\<close> never returns: no error comes back at all.
\<close>

theorem getMeta_invalid_metadata:
  assumes "fenceLine opening" and "list_all headerLine ls"
    and "length (concat ls) < 3 \<or> yamlUnmarshal L (concat ls) = Inl e"
  shows "(fenceLine closing \<longrightarrow>
            getMeta L \<lparr>pending = opening @ concat ls @ closing @ body, final = f\<rparr> dateFormat =
              Some (Inl (if length (concat ls) < 3 then ErrReadAll else ErrReadingYml e))) \<and>
         getMeta L \<lparr>pending = opening @ concat ls, final = IoEOF\<rparr> dateFormat = None"
proof (intro conjI impI)
  assume closing: "fenceLine closing"
  have first: "ReadString \<lparr>pending = opening @ concat ls @ closing @ body, final = f\<rparr> =
                 (opening, None, \<lparr>pending = concat ls @ closing @ body, final = f\<rparr>)"
    using assms(1) by (simp add: fenceLine_def ReadString_line)
  have loop: "readHeader \<lparr>pending = concat ls @ closing @ body, final = f\<rparr> [] =
                Some (Inr (concat ls, \<lparr>pending = body, final = f\<rparr>))"
    using assms(2) closing by (rule readHeader_block)
  show "getMeta L \<lparr>pending = opening @ concat ls @ closing @ body, final = f\<rparr> dateFormat =
          Some (Inl (if length (concat ls) < 3 then ErrReadAll else ErrReadingYml e))"
    unfolding getMeta_def first using assms(1,3) loop by (auto simp: fenceLine_def)
next
  have first: "ReadString \<lparr>pending = opening @ concat ls, final = IoEOF\<rparr> =
                 (opening, None, \<lparr>pending = concat ls, final = IoEOF\<rparr>)"
    using assms(1) by (simp add: fenceLine_def ReadString_line)
  have loop: "readHeader \<lparr>pending = concat ls, final = IoEOF\<rparr> [] = None"
    using readHeader_headerLines[OF assms(2), of "[]" IoEOF "[]"]
    by (simp add: readHeader_at_eof)
  show "getMeta L \<lparr>pending = opening @ concat ls, final = IoEOF\<rparr> dateFormat = None"
    unfolding getMeta_def first using assms(1) loop by (simp add: fenceLine_def)
qed

theorem getMeta_invalid_metadata_witness:
  "getMeta exLib \<lparr>pending = ''---\<newline>'' @ ''a\<newline>'' @ ''---\<newline>'' @ ''# Hi\<newline>'', final = IoEOF\<rparr>
       ''2006-01-02'' = Some (Inl ErrReadAll) \<and>
   getMeta exLib \<lparr>pending = ''---\<newline>'' @ ''a\<newline>'', final = IoEOF\<rparr> ''2006-01-02'' = None \<and>
   getMeta exLib \<lparr>pending = ''---\<newline>'' @ ''title: [\<newline>'' @ ''---\<newline>'' @ ''# Hi\<newline>'', final = IoEOF\<rparr>
       ''2006-01-02'' = Some (Inl (ErrReadingYml (OtherErr ''yaml''))) \<and>
   getMeta exLib \<lparr>pending = ''---\<newline>'' @ ''title: [\<newline>'', final = IoEOF\<rparr> ''2006-01-02'' = None"
proof -
  have y: "yamlUnmarshal exLib ''title: [\<newline>'' = Inl (OtherErr ''yaml'')"
    by (simp add: exLib_def exHeader_def)
  show ?thesis
    using getMeta_invalid_metadata[of "''---\<newline>''" "[''a\<newline>'']" exLib undefined
        "''---\<newline>''" "''# Hi\<newline>''" IoEOF "''2006-01-02''"]
      getMeta_invalid_metadata[of "''---\<newline>''" "[''title: [\<newline>'']" exLib "OtherErr ''yaml''"
        "''---\<newline>''" "''# Hi\<newline>''" IoEOF "''2006-01-02''"] y
    by (simp add: fenceLine_def headerLine_def isLine_def newline_def)
qed



section \<open>Claims about newPost\<close>

lemma getHTML_exBody:
  "getHTML exLib \<lparr>pending = ''# Hi\<newline>'', final = f\<rparr> = Inr ''# Hi\<newline>''"
  by (simp add: getHTML_def ReadAll_def replaceCodeParts_def exLib_def codeSelector_def
      codeOpen_def dquote_def htmlOpen_def htmlClose_def)

text \<open>
  C3. The claim is that a failure to open post.md comes back as an error that wraps its
  cause and the path, with no Post, and that any I/O error ends the assembly at once.
  When \<open>os.Open\<close> fails, with a nil file and the error \<open>cause\<close>, \<open>newPost\<close> does not test
  that error: it reads from the nil file, and what it returns, with the path and no
  Post, is the meta error around \<open>ReadString\<close>'s \<open>os.ErrInvalid\<close>, the same for every
  cause: the cause of the failed open is not in it.
\<close>

theorem newPost_open_failure:
  assumes "osOpen E (Join E path ''post.md'') = (None, Some cause)"
  shows "newPost L E path dateFormat =
           Some (Inl (ErrParsingMeta (Join E path ''post.md'') (ErrReadString OsErrInvalid)))"
  using assms by (simp add: newPost_def NewReader_def getMeta_def ReadString_def)

theorem newPost_open_failure_witness:
  "osOpen exFS ''blog/none/post.md'' = (None, Some OsErrNotExist) \<and>
   newPost exLib exFS ''blog/none'' ''2006-01-02'' =
     Some (Inl (ErrParsingMeta ''blog/none/post.md'' (ErrReadString OsErrInvalid)))"
  using newPost_open_failure[of exFS "''blog/none''" OsErrNotExist exLib "''2006-01-02''"]
  by (simp add: exFS_def)

text \<open>
  In \<open>blog/broken\<close> the read of the body fails after its last byte; \<open>getHTML\<close> drops the
  error of \<open>ReadAll\<close> and \<open>newPost\<close> returns a Post built from the bytes read before the
  failure.
\<close>

lemma newPost_read_failure:
  "fst (snd (ReadAll \<lparr>pending = ''# Hi\<newline>'', final = OtherErr ''input/output error''\<rparr>)) =
     Some (OtherErr ''input/output error'') \<and>
   newPost exLib exFS ''blog/broken'' ''2006-01-02'' =
     Some (Inr \<lparr>Name = ''broken'', HTML = ''# Hi\<newline>'',
                Meta = \<lparr>Title = ''Hello'', Short = ''A greeting'', Date = ''2023-05-01'',
                         ParsedDate = 63818496000\<rparr>,
                ImagesDir = [], Images = []\<rparr>)"
proof -
  have imgs: "getImages exFS ''blog/broken'' = Inr ([], [])"
    by (simp add: getImages_def exFS_def IsNotExist_def)
  have broken: "newPost exLib exFS ''blog/broken'' ''2006-01-02'' =
     Some (Inr \<lparr>Name = ''broken'', HTML = ''# Hi\<newline>'',
                Meta = \<lparr>Title = ''Hello'', Short = ''A greeting'', Date = ''2023-05-01'',
                         ParsedDate = 63818496000\<rparr>,
                ImagesDir = [], Images = []\<rparr>)"
    using getMeta_exPost[of "OtherErr ''input/output error''"]
      getHTML_exBody[of "OtherErr ''input/output error''"] imgs
    by (simp add: newPost_def exFS_def NewReader_def exMeta_def)
  show ?thesis using broken by (simp add: ReadAll_def)
qed

section \<open>Claims about replaceCodeParts\<close>

text \<open>
  The error of the highlighter is dropped in the callback: whatever error it reports,
  and on whichever element, the document that is serialized and the result of
  \<open>replaceCodeParts\<close> are those of a highlighter that returns the same bytes and no
  error. The content of each selected element is what the highlighter returned for it.
\<close>

lemma highlightCode_drops_error:
  "highlightCode (L\<lparr>AsHTML := \<lambda>src. (fst (AsHTML L src), err src)\<rparr>) = highlightCode L"
  by (simp add: fun_eq_iff highlightCode_def)

lemma replaceCodeParts_drops_error:
  "replaceCodeParts (L\<lparr>AsHTML := \<lambda>src. (fst (AsHTML L src), err src)\<rparr>) htmlFile =
   replaceCodeParts L htmlFile"
  by (simp add: replaceCodeParts_def highlightCode_drops_error cong: sum.case_cong)

lemma replaceCodeParts_exCode:
  "replaceCodeParts exLib (codeOpen @ ''x y'' @ ''</code>'') =
     Inr (codeOpen @ ''<span>x y</span></code>'')"
  by (simp add: replaceCodeParts_def highlightCode_def exLib_def codeSelector_def codeOpen_def
      dquote_def htmlClose_def htmlOpen_def)

subsection \<open>Removing the wrapper\<close>

lemma Replace1_at_front: "old \<noteq> [] \<Longrightarrow> Replace1 (old @ rest) old new = new @ rest"
  by (cases old) simp_all

text \<open>No proper suffix of \<open></body></html>\<close> is a prefix of it.\<close>

lemma htmlClose_no_border:
  assumes "0 < k" and "k < length htmlClose"
  shows "\<not> prefix (drop k htmlClose) htmlClose"
proof -
  have "list_all (\<lambda>k. \<not> prefix (drop k htmlClose) htmlClose) [1..<14]"
    by (simp add: htmlClose_def upt_rec)
  moreover have "k \<in> set [1..<14]"
    using assms by (simp add: htmlClose_def)
  ultimately show ?thesis by (simp only: list_all_iff) blast
qed

lemma prefix_htmlClose_append:
  assumes "prefix htmlClose (body @ htmlClose)" and "body \<noteq> []"
  shows "sublist htmlClose body"
proof (cases "length htmlClose \<le> length body")
  case True
  from assms(1) obtain zs where "body @ htmlClose = htmlClose @ zs"
    by (auto simp: prefix_def)
  then have "take (length htmlClose) (body @ htmlClose) = htmlClose" by simp
  with True have "take (length htmlClose) body = htmlClose" by simp
  then have "prefix htmlClose body" by (metis take_is_prefix)
  then show ?thesis by (rule prefix_imp_sublist)
next
  case False
  define k where "k = length body"
  from False assms(2) have k: "0 < k" "k < length htmlClose" by (simp_all add: k_def)
  from assms(1) obtain zs where eq: "body @ htmlClose = htmlClose @ zs"
    by (auto simp: prefix_def)
  have "htmlClose = drop k (body @ htmlClose)" by (simp add: k_def)
  also have "\<dots> = drop k htmlClose @ zs" using k by (simp add: eq)
  finally have "prefix (drop k htmlClose) htmlClose" by (metis prefixI)
  with htmlClose_no_border[OF k] show ?thesis by simp
qed

lemma Replace1_at_end:
  "\<not> sublist htmlClose body \<Longrightarrow> Replace1 (body @ htmlClose) htmlClose [] = body"
proof (induction body)
  case Nil
  then show ?case by (simp add: htmlClose_def)
next
  case (Cons b bs)
  from Cons.prems have nb: "\<not> sublist htmlClose bs"
    by (auto simp: sublist_Cons_right)
  have "\<not> prefix htmlClose ((b # bs) @ htmlClose)"
    using prefix_htmlClose_append[of "b # bs"] Cons.prems by blast
  then show ?case using Cons.IH[OF nb] by simp
qed

text \<open>
  C6. The serialization of the document is the wrapper \<open><html><head></head><body>\<close>, a
  body and \<open></body></html>\<close>, and \<open></body></html>\<close> does not occur inside the body. Then
  \<open>replaceCodeParts\<close> returns exactly the body: both parts of the wrapper are removed.
  The condition on the body is needed, since \<open>strings.Replace\<close> with count 1 removes the
  first occurrence from the left.
\<close>

theorem replaceCodeParts_strips_wrapper:
  assumes "NewDocumentFromReader L htmlFile = Inr doc"
    and "Html L (fold (highlightCode L) (Find L doc codeSelector) doc) =
           Inr (htmlOpen @ body @ htmlClose)"
    and "\<not> sublist htmlClose body"
  shows "replaceCodeParts L htmlFile = Inr body"
proof -
  have "htmlOpen \<noteq> []" by (simp add: htmlOpen_def)
  then have "Replace1 (htmlOpen @ body @ htmlClose) htmlOpen [] = body @ htmlClose"
    using Replace1_at_front[of htmlOpen "body @ htmlClose" "[]"] by simp
  with assms show ?thesis
    by (simp add: replaceCodeParts_def Replace1_at_end)
qed

theorem replaceCodeParts_strips_wrapper_witness:
  "replaceCodeParts exLib ''<p>hi</p>'' = Inr ''<p>hi</p>''"
  using replaceCodeParts_strips_wrapper[of exLib "''<p>hi</p>''" "[Raw ''<p>hi</p>'']"
      "''<p>hi</p>''"]
  by (simp add: exLib_def codeSelector_def codeOpen_def dquote_def htmlClose_def
      sublist_Cons_right)

text \<open>
  The claim as it is written, for every input, fails on a body with a comment that holds
  \<open></body></html>\<close>: the serializer writes the comment as it is, the occurrence inside
  the comment is the one removed, and the suffix the serializer added stays in the
  output.
\<close>

theorem replaceCodeParts_strips_wrapper_counterexample:
  "Html exLib [Raw ''<p>a</p><!--</body></html>-->''] =
     Inr (htmlOpen @ ''<p>a</p><!--</body></html>-->'' @ htmlClose) \<and>
   replaceCodeParts exLib ''<p>a</p><!--</body></html>-->'' =
     Inr (''<p>a</p><!---->'' @ htmlClose)"
  by (simp add: replaceCodeParts_def exLib_def codeSelector_def codeOpen_def dquote_def
      htmlClose_def htmlOpen_def)

section \<open>Claims about getImages\<close>

lemma collect_names:
  "fold (\<lambda>file images. images @ [FName file]) files acc = acc @ map FName files"
  by (induction files arbitrary: acc) simp_all

text \<open>
  C5. When the \<open>images\<close> directory of the post can be listed, \<open>getImages\<close> returns its
  path and the name of every entry of the listing, directories too, in the order of the
  listing: nothing is sorted and nothing is left out.
\<close>

theorem getImages_listing_order:
  assumes "ReadDir E (Join E path ''images'') = Inr files"
  shows "getImages E path = Inr (Join E path ''images'', map FName files)"
  using assms by (simp add: getImages_def collect_names)

theorem getImages_listing_order_witness:
  "getImages exFS ''blog/hello'' = Inr (''blog/hello/images'', [''b.png'', ''a.png'', ''raw''])"
  using getImages_listing_order[of exFS "''blog/hello''"
      "[\<lparr>FName = ''b.png'', IsDir = False\<rparr>, \<lparr>FName = ''a.png'', IsDir = False\<rparr>,
        \<lparr>FName = ''raw'', IsDir = True\<rparr>]"]
  by (simp add: exFS_def)

section \<open>Claims about ByDateDesc\<close>

lemma Less_adjacent:
  "Less (xs @ y # x # ys) (Suc (length xs)) (length xs) =
     Some (ParsedDate (Meta y) < ParsedDate (Meta x))"
  by (simp add: Less_def After_def nth_append)

lemma Swap_adjacent:
  "Swap (xs @ y # x # ys) (Suc (length xs)) (length xs) = Some (xs @ x # y # ys)"
  by (simp add: Swap_def nth_append list_update_append)

text \<open>
  The inner loop, started at the post \<open>x\<close> behind the posts \<open>xs\<close>, moves \<open>x\<close> to the
  left past every post with an earlier date; what is behind \<open>x\<close> is not touched.
\<close>

lemma insertInner_inserts:
  "\<exists>zs. insertInner (xs @ x # ys) (length xs) = Some (zs @ ys) \<and>
        mset zs = mset (xs @ [x]) \<and> (byDateDesc xs \<longrightarrow> byDateDesc zs)"
proof (induction xs arbitrary: ys rule: rev_induct)
  case Nil
  show ?case by (simp add: byDateDesc_def)
next
  case (snoc y xs)
  show ?case
  proof (cases "ParsedDate (Meta y) < ParsedDate (Meta x)")
    case False
    have "insertInner ((xs @ [y]) @ x # ys) (length (xs @ [y])) = Some ((xs @ [y, x]) @ ys)"
      using False Less_adjacent[of xs y x ys] by simp
    moreover have "byDateDesc (xs @ [y]) \<longrightarrow> byDateDesc (xs @ [y, x])"
      using False by (auto simp: byDateDesc_def sorted_wrt_append)
    ultimately show ?thesis by (intro exI[of _ "xs @ [y, x]"]) simp
  next
    case True
    from snoc.IH[of "y # ys"] obtain zs where
      zs: "insertInner (xs @ x # y # ys) (length xs) = Some (zs @ y # ys)"
      and m: "mset zs = mset (xs @ [x])" and s: "byDateDesc xs \<longrightarrow> byDateDesc zs"
      by blast
    have "insertInner ((xs @ [y]) @ x # ys) (length (xs @ [y])) = Some ((zs @ [y]) @ ys)"
      using True Less_adjacent[of xs y x ys] Swap_adjacent[of xs y x ys] zs by simp
    moreover have "mset (zs @ [y]) = mset ((xs @ [y]) @ [x])"
      using m by simp
    moreover have "byDateDesc (xs @ [y]) \<longrightarrow> byDateDesc (zs @ [y])"
    proof
      assume a: "byDateDesc (xs @ [y])"
      then have "byDateDesc zs"
        using s by (simp add: byDateDesc_def sorted_wrt_append)
      moreover have "set zs = set xs \<union> {x}"
        using mset_eq_setD[OF m] by simp
      ultimately show "byDateDesc (zs @ [y])"
        using a True by (auto simp: byDateDesc_def sorted_wrt_append)
    qed
    ultimately show ?thesis by blast
  qed
qed

lemma insertionLoop_sorts:
  "i \<le> length p \<Longrightarrow> byDateDesc (take i p) \<Longrightarrow>
   \<exists>q. insertionLoop p i (length p) = Some q \<and> mset q = mset p \<and> byDateDesc q"
proof (induction "length p - i" arbitrary: p i)
  case 0
  then show ?case by (simp add: insertionLoop.simps)
next
  case (Suc n)
  then have i: "i < length p" by simp
  have split: "p = take i p @ p ! i # drop (Suc i) p"
    using i by (rule id_take_nth_drop)
  have li: "length (take i p) = i" using i by simp
  from insertInner_inserts[of "take i p" "p ! i" "drop (Suc i) p"] obtain zs where
    zs: "insertInner p i = Some (zs @ drop (Suc i) p)"
    and m: "mset zs = mset (take i p @ [p ! i])" and s: "byDateDesc zs"
    using split li Suc.prems(2) by auto
  define p' where "p' = zs @ drop (Suc i) p"
  have "length zs = length (take i p @ [p ! i])"
    using m by (rule mset_eq_length)
  then have len_zs: "length zs = Suc i" using li by simp
  have len: "length p' = length p" using len_zs i by (simp add: p'_def)
  have "mset p' = mset (take i p @ [p ! i]) + mset (drop (Suc i) p)"
    using m by (simp add: p'_def)
  also have "\<dots> = mset (take i p @ p ! i # drop (Suc i) p)" by simp
  finally have mp: "mset p' = mset p" using split by simp
  have "n = length p' - Suc i" using Suc.hyps(2) len by simp
  moreover have "Suc i \<le> length p'" using i len by simp
  moreover have "byDateDesc (take (Suc i) p')" using s len_zs by (simp add: p'_def)
  ultimately obtain q where q: "insertionLoop p' (Suc i) (length p') = Some q"
    "mset q = mset p'" "byDateDesc q"
    using Suc.hyps(1)[of p' "Suc i"] by blast
  have "insertionLoop p i (length p) = insertionLoop p' (Suc i) (length p)"
    using i zs by (subst insertionLoop.simps) (simp add: p'_def)
  with q mp len show ?case by simp
qed

lemma insertionSort_sorts: "\<exists>q. insertionSort p = Some q \<and> mset q = mset p \<and> byDateDesc q"
proof (cases p)
  case Nil
  then show ?thesis by (simp add: insertionSort_def Len_def byDateDesc_def insertionLoop.simps)
next
  case (Cons x xs)
  then show ?thesis
    unfolding insertionSort_def Len_def
    using insertionLoop_sorts[of 1 p] by (simp add: byDateDesc_def)
qed

lemma insertionSort_example:
  assumes "ParsedDate (Meta a) = 63808128000" and "ParsedDate (Meta b) = 63821174400"
    and "ParsedDate (Meta c) = 63805449600"
  shows "insertionSort [a, b, c] = Some [b, a, c]"
  using assms
  by (simp add: insertionSort_def Len_def Less_def Swap_def After_def numeral_3_eq_3
      insertionLoop.simps)

text \<open>
  C10. For two indices of the slice, \<open>Less\<close> is true exactly when the parsed date of the
  left post is strictly after that of the right one; equal dates and the zero Time are
  compared like any other. The insertion sort of \<open>sort.Sort\<close>, run with \<open>Less\<close> and
  \<open>Swap\<close>, returns the same posts in descending order of date, and three posts dated
  2023-01-01, 2023-06-01 and 2022-12-01 (738520, 738671 and 738489 days after the zero
  Time, in seconds) come out in the order 2023-06-01, 2023-01-01, 2022-12-01.
\<close>

theorem ByDateDesc_Less_descending:
  "(i < Len p \<and> j < Len p \<longrightarrow>
      Less p i j = Some (ParsedDate (Meta (p ! j)) < ParsedDate (Meta (p ! i)))) \<and>
   (\<exists>q. insertionSort p = Some q \<and> mset q = mset p \<and> byDateDesc q) \<and>
   (ParsedDate (Meta a) = 63808128000 \<and> ParsedDate (Meta b) = 63821174400 \<and>
    ParsedDate (Meta c) = 63805449600 \<longrightarrow>
      insertionSort [a, b, c] = Some [b, a, c])"
proof (intro conjI impI)
  assume "i < Len p \<and> j < Len p"
  then show "Less p i j = Some (ParsedDate (Meta (p ! j)) < ParsedDate (Meta (p ! i)))"
    by (simp add: Less_def Len_def After_def)
next
  show "\<exists>q. insertionSort p = Some q \<and> mset q = mset p \<and> byDateDesc q"
    by (rule insertionSort_sorts)
next
  assume "ParsedDate (Meta a) = 63808128000 \<and> ParsedDate (Meta b) = 63821174400 \<and>
    ParsedDate (Meta c) = 63805449600"
  then show "insertionSort [a, b, c] = Some [b, a, c]"
    by (simp add: insertionSort_example)
qed

theorem ByDateDesc_Less_descending_witness:
  "Less [datedPost ''january'' 63808128000, datedPost ''june'' 63821174400,
         datedPost ''december'' 63805449600] 1 0 = Some True \<and>
   Less [datedPost ''january'' 63808128000, datedPost ''june'' 63821174400,
         datedPost ''december'' 63805449600] 0 0 = Some False \<and>
   insertionSort [datedPost ''january'' 63808128000, datedPost ''june'' 63821174400,
         datedPost ''december'' 63805449600] =
     Some [datedPost ''june'' 63821174400, datedPost ''january'' 63808128000,
           datedPost ''december'' 63805449600]"
  using ByDateDesc_Less_descending[of 1
      "[datedPost ''january'' 63808128000, datedPost ''june'' 63821174400,
        datedPost ''december'' 63805449600]" 0
      "datedPost ''january'' 63808128000" "datedPost ''june'' 63821174400"
      "datedPost ''december'' 63805449600"]
    ByDateDesc_Less_descending[of 0
      "[datedPost ''january'' 63808128000, datedPost ''june'' 63821174400,
        datedPost ''december'' 63805449600]" 0
      "datedPost ''january'' 63808128000" "datedPost ''june'' 63821174400"
      "datedPost ''december'' 63805449600"]
  by (simp add: Len_def datedPost_def)

end
